theory Spec2Isabelle
  imports Complex_Main "HOL-Library.Word" "HOL-Library.AList"
begin

section \<open>JavaScript values used by the search endpoint\<close>

text \<open>
  A JavaScript string is a sequence of 16-bit code units. Literals of the source are
  written in ASCII and converted with \<open>ascii\<close>.
\<close>

type_synonym jsstring = "16 word list"

definition ascii :: "string \<Rightarrow> jsstring" where
  "ascii s = map (\<lambda>c. of_nat (of_char c)) s"

text \<open>
  A JavaScript number is either NaN, one of the two infinities, or a finite value. The
  finite values of the type are the binary64 numbers, all of them rationals; the model
  carries a rational and \<open>round_double\<close> below is the only producer of finite values
  from text. The two zeros are identified: \<open>Math.floor\<close>, \<open>Math.min\<close> and
  \<open>Math.max\<close> against the non-zero constants of the source never tell them apart.
\<close>

datatype number = NaN | Infinity | NegInfinity | Num rat

definition Number_isFinite :: "number \<Rightarrow> bool" where
  "Number_isFinite k = (case k of Num _ \<Rightarrow> True | _ \<Rightarrow> False)"

definition Math_floor :: "number \<Rightarrow> number" where
  "Math_floor x = (case x of Num v \<Rightarrow> Num (of_int \<lfloor>v\<rfloor>) | _ \<Rightarrow> x)"

fun Math_min :: "number \<Rightarrow> number \<Rightarrow> number" where
  "Math_min NaN _ = NaN"
| "Math_min _ NaN = NaN"
| "Math_min NegInfinity _ = NegInfinity"
| "Math_min _ NegInfinity = NegInfinity"
| "Math_min Infinity y = y"
| "Math_min x Infinity = x"
| "Math_min (Num a) (Num b) = Num (min a b)"

fun Math_max :: "number \<Rightarrow> number \<Rightarrow> number" where
  "Math_max NaN _ = NaN"
| "Math_max _ NaN = NaN"
| "Math_max Infinity _ = Infinity"
| "Math_max _ Infinity = Infinity"
| "Math_max NegInfinity y = y"
| "Math_max x NegInfinity = x"
| "Math_max (Num a) (Num b) = Num (max a b)"

section \<open>\<open>clampK\<close> (api/src/functions/search.ts, lines 3-6)\<close>

definition clampK :: "number \<Rightarrow> number" where
  "clampK k =
     (if \<not> Number_isFinite k then Num 8
      else Math_max (Num 1) (Math_min (Num 25) (Math_floor k)))"

section \<open>\<open>clampK\<close> of the frontend (App.tsx)\<close>

definition clampK_frontend :: "number \<Rightarrow> number" where
  "clampK_frontend k =
     (if \<not> Number_isFinite k then Num 8
      else Math_max (Num 1) (Math_min (Num 25) (Math_floor k)))"

section \<open>Strings: white space and \<open>String.prototype.trim\<close>\<close>

text \<open>
  The code units that ECMAScript's \<open>trim\<close> and string-to-number conversion strip:
  WhiteSpace (TAB, VT, FF, ZWNBSP and the Unicode space separators) and LineTerminator
  (LF, CR, LS, PS).
\<close>

definition isWhiteSpace :: "16 word \<Rightarrow> bool" where
  "isWhiteSpace c \<longleftrightarrow>
     c = 0x09 \<or> c = 0x0A \<or> c = 0x0B \<or> c = 0x0C \<or> c = 0x0D \<or> c = 0x20 \<or> c = 0xA0 \<or>
     c = 0x1680 \<or> (0x2000 \<le> c \<and> c \<le> 0x200A) \<or> c = 0x2028 \<or> c = 0x2029 \<or>
     c = 0x202F \<or> c = 0x205F \<or> c = 0x3000 \<or> c = 0xFEFF"

definition trim :: "jsstring \<Rightarrow> jsstring" where
  "trim s = rev (dropWhile isWhiteSpace (rev (dropWhile isWhiteSpace s)))"

section \<open>\<open>Number(string)\<close>: ECMAScript's StringToNumber\<close>

text \<open>
  Rounding of a mathematical value to the binary64 format, to nearest with ties to even:
  53 significant bits, least exponent -1022 (below it the spacing stays \<open>2^-1074\<close>), and
  a result that reaches \<open>2^1024\<close> is an infinity.
\<close>

function bit_length :: "int \<Rightarrow> int" where
  "bit_length n = (if n \<le> 0 then 0 else 1 + bit_length (n div 2))"
  by pat_completeness auto
termination
  by (relation "measure nat") auto

declare bit_length.simps [simp del]

definition pow_int :: "rat \<Rightarrow> int \<Rightarrow> rat" where
  "pow_int b e = (if 0 \<le> e then b ^ nat e else 1 / b ^ nat (- e))"

definition floor_log2 :: "rat \<Rightarrow> int" where
  "floor_log2 a =
     (let (p, q) = quotient_of a;
          d = bit_length p - bit_length q
      in if pow_int 2 d \<le> a then d else d - 1)"

definition roundTiesToEven :: "rat \<Rightarrow> int" where
  "roundTiesToEven x =
     (let f = \<lfloor>x\<rfloor>; d = x - of_int f
      in if d < 1 / 2 then f else if 1 / 2 < d then f + 1 else if even f then f else f + 1)"

definition round_double :: "rat \<Rightarrow> number" where
  "round_double x =
     (if x = 0 then Num 0
      else
        let a = \<bar>x\<bar>;
            e = max (floor_log2 a) (- 1022);
            ulp = pow_int 2 (e - 52);
            r = of_int (roundTiesToEven (a / ulp)) * ulp
        in if pow_int 2 1024 \<le> r then (if 0 < x then Infinity else NegInfinity)
           else Num (if 0 < x then r else - r))"

text \<open>
  The grammar of StringNumericLiteral. \<open>digitOf b c\<close> is the value of the code unit
  \<open>c\<close> as a digit in radix \<open>b\<close>; \<open>mvDigits\<close> is the value of a digit string, and
  \<open>None\<close> when a code unit is not a digit of the radix.
\<close>

definition digitOf :: "int \<Rightarrow> 16 word \<Rightarrow> int option" where
  "digitOf b c =
     (let v = (if 0x30 \<le> c \<and> c \<le> 0x39 then Some (uint c - 48)
               else if 0x61 \<le> c \<and> c \<le> 0x66 then Some (uint c - 87)
               else if 0x41 \<le> c \<and> c \<le> 0x46 then Some (uint c - 55)
               else None)
      in case v of None \<Rightarrow> None | Some d \<Rightarrow> if d < b then Some d else None)"

fun mvDigits :: "int \<Rightarrow> jsstring \<Rightarrow> int \<Rightarrow> int option" where
  "mvDigits b [] acc = Some acc"
| "mvDigits b (c # cs) acc =
     (case digitOf b c of None \<Rightarrow> None | Some d \<Rightarrow> mvDigits b cs (b * acc + d))"

definition isDecimalDigit :: "16 word \<Rightarrow> bool" where
  "isDecimalDigit c \<longleftrightarrow> 0x30 \<le> c \<and> c \<le> 0x39"

text \<open>\<open>0x\<close>, \<open>0o\<close> and \<open>0b\<close> literals (either case of the letter), unsigned, at least one digit.\<close>

definition NonDecimalIntegerLiteral :: "jsstring \<Rightarrow> int option" where
  "NonDecimalIntegerLiteral s =
     (case s of
        z # p # ds \<Rightarrow>
          if z = 0x30 \<and> ds \<noteq> [] then
            (if p = 0x78 \<or> p = 0x58 then mvDigits 16 ds 0
             else if p = 0x6F \<or> p = 0x4F then mvDigits 8 ds 0
             else if p = 0x62 \<or> p = 0x42 then mvDigits 2 ds 0
             else None)
          else None
      | _ \<Rightarrow> None)"

text \<open>ExponentPart, as the whole rest of the literal: \<open>e\<close> or \<open>E\<close>, an optional sign, digits.\<close>

definition ExponentPart :: "jsstring \<Rightarrow> int option" where
  "ExponentPart s =
     (case s of
        [] \<Rightarrow> Some 0
      | e # t \<Rightarrow>
          if e = 0x65 \<or> e = 0x45 then
            (let (neg, ds) = (case t of
                                c # u \<Rightarrow> if c = 0x2B then (False, u)
                                          else if c = 0x2D then (True, u) else (False, t)
                              | [] \<Rightarrow> (False, t))
             in if ds = [] then None
                else case mvDigits 10 ds 0 of
                       None \<Rightarrow> None
                     | Some n \<Rightarrow> Some (if neg then - n else n))
          else None)"

text \<open>
  StrUnsignedDecimalLiteral other than \<open>Infinity\<close>: digits, an optional point with
  optional digits, at least one digit in all, an optional exponent. The result is the
  mathematical value of the literal.
\<close>

definition StrUnsignedDecimalLiteral :: "jsstring \<Rightarrow> rat option" where
  "StrUnsignedDecimalLiteral s =
     (let ip = takeWhile isDecimalDigit s;
          r1 = dropWhile isDecimalDigit s;
          (fp, r2) = (case r1 of
                        c # t \<Rightarrow> if c = 0x2E
                                  then (takeWhile isDecimalDigit t, dropWhile isDecimalDigit t)
                                  else ([], r1)
                      | [] \<Rightarrow> ([], r1))
      in if ip = [] \<and> fp = [] then None
         else case (mvDigits 10 (ip @ fp) 0, ExponentPart r2) of
                (Some n, Some e) \<Rightarrow> Some (of_int n * pow_int 10 (e - int (length fp)))
              | _ \<Rightarrow> None)"

text \<open>
  \<open>Number(s)\<close> for a string \<open>s\<close>: white space is stripped; the empty string is 0; a
  literal of the grammar is its value rounded to binary64; anything else is NaN.
\<close>

definition Number :: "jsstring \<Rightarrow> number" where
  "Number str =
     (let s = trim str in
      if s = [] then Num 0
      else case NonDecimalIntegerLiteral s of
             Some n \<Rightarrow> round_double (of_int n)
           | None \<Rightarrow>
               (let (neg, u) = (case s of
                                  c # t \<Rightarrow> if c = 0x2B then (False, t)
                                            else if c = 0x2D then (True, t) else (False, s)
                                | [] \<Rightarrow> (False, s))
                in if u = ascii ''Infinity'' then (if neg then NegInfinity else Infinity)
                   else case StrUnsignedDecimalLiteral u of
                          None \<Rightarrow> NaN
                        | Some v \<Rightarrow> round_double (if neg then - v else v)))"

section \<open>The HTTP request and response\<close>

text \<open>
  \<open>request.query\<close> is a URLSearchParams: an ordered list of name/value pairs, and
  \<open>get\<close> returns the value of the first pair with the name, or null.
\<close>

record HttpRequest =
  query :: "(jsstring \<times> jsstring) list"

definition query_get :: "(jsstring \<times> jsstring) list \<Rightarrow> jsstring \<Rightarrow> jsstring option" where
  "query_get params name = map_of params name"

text \<open>\<open>a || b\<close> on a string or null: null and the empty string are falsy.\<close>

definition logical_or :: "jsstring option \<Rightarrow> jsstring \<Rightarrow> jsstring" where
  "logical_or a b = (case a of None \<Rightarrow> b | Some s \<Rightarrow> if s = [] then b else s)"

datatype json =
    JString jsstring
  | JNumber number
  | JArray "json list"
  | JObject "(string \<times> json) list"

record HttpResponseInit =
  status :: nat
  jsonBody :: json

section \<open>\<open>search\<close> (api/src/functions/search.ts, lines 8-29)\<close>

text \<open>
  The response the handler computes. What the operations of the handler can throw, and
  the promise the \<open>async\<close> function returns, are modelled in the next section.
\<close>

definition search :: "HttpRequest \<Rightarrow> HttpResponseInit" where
  "search request =
     (let q = trim (logical_or (query_get (query request) (ascii ''q'')) []);
          k = clampK (Number (logical_or (query_get (query request) (ascii ''k'')) (ascii ''8'')))
      in if q = [] then
           \<lparr>status = 400,
            jsonBody = JObject [(''error'', JString (ascii ''Missing required query param: q''))]\<rparr>
         else
           \<lparr>status = 200,
            jsonBody = JObject [(''q'', JString q), (''k'', JNumber k), (''results'', JArray [])]\<rparr>)"

section \<open>The promise \<open>search\<close> returns, and what can throw\<close>

text \<open>
  At run time the operands are JavaScript values, and \<open>request.query.get\<close> gives a
  string or null (\<open>None\<close>). An \<open>async\<close> function returns a promise: fulfilled with the
  value returned, or rejected with the exception thrown in its body.
\<close>

datatype js_error = TypeError

datatype 'a promise = Fulfilled 'a | Rejected js_error

text \<open>\<open>a || b\<close> on values that may be null: the left operand when it is truthy, else the right.\<close>

definition or_value :: "jsstring option \<Rightarrow> jsstring option \<Rightarrow> jsstring option" where
  "or_value a b = (case a of None \<Rightarrow> b | Some s \<Rightarrow> if s = [] then b else a)"

text \<open>\<open>x.trim()\<close>: reading a property of null throws a TypeError.\<close>

definition call_trim :: "jsstring option \<Rightarrow> js_error + jsstring" where
  "call_trim x = (case x of None \<Rightarrow> Inl TypeError | Some s \<Rightarrow> Inr (trim s))"

text \<open>\<open>Number(x)\<close>: null converts to 0, a string by StringToNumber; neither throws.\<close>

definition Number_value :: "jsstring option \<Rightarrow> number" where
  "Number_value x = (case x of None \<Rightarrow> Num 0 | Some s \<Rightarrow> Number s)"

text \<open>
  The body of \<open>search\<close>, statement by statement, with the exception of \<open>trim\<close>
  propagated: an exception thrown while \<open>q\<close> is computed rejects the promise.
\<close>

definition search_promise :: "HttpRequest \<Rightarrow> HttpResponseInit promise" where
  "search_promise request =
     (case call_trim (or_value (query_get (query request) (ascii ''q'')) (Some [])) of
        Inl e \<Rightarrow> Rejected e
      | Inr q \<Rightarrow>
          let k = clampK (Number_value
                    (or_value (query_get (query request) (ascii ''k'')) (Some (ascii ''8''))))
          in if q = [] then
               Fulfilled
                 \<lparr>status = 400,
                  jsonBody = JObject
                    [(''error'', JString (ascii ''Missing required query param: q''))]\<rparr>
             else
               Fulfilled
                 \<lparr>status = 200,
                  jsonBody = JObject
                    [(''q'', JString q), (''k'', JNumber k), (''results'', JArray [])]\<rparr>)"

section \<open>The response contract (frontend/src/types.ts)\<close>

text \<open>
  Property access on a JSON value: \<open>field j name\<close> is \<open>j.name\<close>, and \<open>None\<close> where
  JavaScript gives \<open>undefined\<close>.
\<close>

definition field :: "json \<Rightarrow> string \<Rightarrow> json option" where
  "field j name = (case j of JObject kvs \<Rightarrow> map_of kvs name | _ \<Rightarrow> None)"

definition is_string :: "json option \<Rightarrow> bool" where
  "is_string j = (case j of Some (JString _) \<Rightarrow> True | _ \<Rightarrow> False)"

definition is_number :: "json option \<Rightarrow> bool" where
  "is_number j = (case j of Some (JNumber _) \<Rightarrow> True | _ \<Rightarrow> False)"

text \<open>A property declared with \<open>?\<close> may be absent.\<close>

definition optional :: "(json option \<Rightarrow> bool) \<Rightarrow> json option \<Rightarrow> bool" where
  "optional P j = (j = None \<or> P j)"

text \<open>The type \<open>SearchResult\<close>, as a predicate on JSON values.\<close>

definition is_SearchResult :: "json \<Rightarrow> bool" where
  "is_SearchResult r \<longleftrightarrow>
     is_string (field r ''id'') \<and>
     is_number (field r ''distance'') \<and>
     is_string (field r ''text'') \<and>
     (case field r ''meta'' of
        Some (JObject kvs) \<Rightarrow>
          optional is_string (map_of kvs ''source_pdf'') \<and>
          optional is_string (map_of kvs ''source_text'') \<and>
          optional is_number (map_of kvs ''chunk_index'') \<and>
          optional is_number (map_of kvs ''chunk_count'')
      | _ \<Rightarrow> False)"

text \<open>The type \<open>SearchResponse\<close>.\<close>

definition is_SearchResponse :: "json \<Rightarrow> bool" where
  "is_SearchResponse b \<longleftrightarrow>
     is_string (field b ''q'') \<and>
     is_number (field b ''k'') \<and>
     (case field b ''results'' of
        Some (JArray rs) \<Rightarrow> list_all is_SearchResult rs
      | _ \<Rightarrow> False)"

text \<open>
  The clamp as the specification words it, for comparison with the two functions of the
  source: a non-finite input maps to 8, a finite one to \<open>max(1, min(25, floor(input)))\<close>.
\<close>

definition clampK_spec :: "number \<Rightarrow> number" where
  "clampK_spec k = (case k of Num v \<Rightarrow> Num (max 1 (min 25 (of_int \<lfloor>v\<rfloor>))) | _ \<Rightarrow> Num 8)"


section \<open>The ingestion pipeline\<close>

text \<open>
  The pipeline (link discovery, download with a manifest, text extraction, chunking and
  indexing) is the Python package that the README runs as \<open>python -m epstein\<close>; its
  sources are not among the files at hand. Every definition of this section is therefore
  written from the specification. What the specification leaves to the environment (the
  pages and what they link to, the outcome of a fetch, the hash, the extraction tools, the
  chunker and the embedding function) is a field of \<open>world\<close>: one \<open>world\<close> is one
  unchanged input set.
\<close>

type_synonym url = string

text \<open>Modelled from the spec: the status of a DocumentRecord (section 3).\<close>

datatype doc_status = Pending | Downloaded | Failed

text \<open>
  Modelled from the spec: DocumentRecord (section 3), one per discovered URL, with a
  failure reason present exactly when the status is failed.
\<close>

record DocumentRecord =
  url :: url
  local_path :: "string option"
  content_hash :: "nat option"
  doc_status :: doc_status
  failure_reason :: "string option"
  downloaded_at :: "nat option"

text \<open>Modelled from the spec: the extraction method of an ExtractedText (section 3).\<close>

datatype extraction_method = Native | Ocr

text \<open>
  Modelled from the spec: ExtractedText (section 3). \<open>body\<close> is the content of the file at
  \<open>text_path\<close>; \<open>source_hash\<close> is the content hash of the document the text was extracted
  from, which the hash match of section 4.3 compares; \<open>low_confidence\<close> is the flag of
  section 4.3.
\<close>

record ExtractedText =
  source_url :: url
  text_path :: string
  extraction_method :: extraction_method
  char_count :: nat
  extracted_at :: nat
  source_hash :: nat
  body :: string
  low_confidence :: bool

text \<open>
  Modelled from the spec: IndexEntry (section 3): the chunk id, which is the source URL with
  the ordinal, the embedding vector, and the metadata (source URL, ordinal, number of chunks
  of the document).
\<close>

record IndexEntry =
  chunk_id :: "url \<times> nat"
  embedding_vector :: "rat list"
  meta_source_url :: url
  meta_ordinal :: nat
  meta_chunk_count :: nat

text \<open>
  Modelled from the spec: the environment of a run. \<open>page_links\<close> gives the resolved
  absolute hyperlinks of a page, and \<open>None\<close> for a page that cannot be fetched; \<open>fetch\<close>
  gives the bytes of a document, or the reason of the failure that remains after the
  retries; \<open>native_extract\<close> gives the text layer with the page count, and \<open>None\<close> for a
  corrupt file; \<open>ocr_extract\<close> is \<open>None\<close> when the OCR tool is absent.
\<close>

record world =
  pages :: "url list"
  page_links :: "url \<Rightarrow> url list option"
  fetch :: "url \<Rightarrow> string + string"
  hash_of :: "string \<Rightarrow> nat"
  native_extract :: "string \<Rightarrow> (string \<times> nat) option"
  ocr_extract :: "string \<Rightarrow> string option"
  ocr_enabled :: bool
  yield_threshold :: nat
  chunker :: "string \<Rightarrow> (string \<times> nat \<times> nat) list"
  embed :: "string \<Rightarrow> rat list"

text \<open>
  Modelled from the spec: the three persisted artifacts (section 1): the manifest, the raw
  document store and the extracted text store, each keyed by URL, and the vector index.
\<close>

record store =
  manifest :: "(url \<times> DocumentRecord) list"
  raw :: "(url \<times> string) list"
  texts :: "(url \<times> ExtractedText) list"
  index :: "IndexEntry list"

definition empty_store :: store where
  "empty_store = \<lparr>manifest = [], raw = [], texts = [], index = []\<rparr>"

text \<open>
  Modelled from the spec: Link Extractor (section 4.1). A page that cannot be fetched is
  skipped; the links whose absolute form ends in \<open>.pdf\<close>, in either case, are kept; a URL
  found twice is one entry.
\<close>

definition lower :: "char \<Rightarrow> char" where
  "lower c =
     (case map_of (zip ''ABCDEFGHIJKLMNOPQRSTUVWXYZ'' ''abcdefghijklmnopqrstuvwxyz'') c of
        Some l \<Rightarrow> l
      | None \<Rightarrow> c)"

definition is_pdf :: "url \<Rightarrow> bool" where
  "is_pdf u = (4 \<le> length u \<and> map lower (drop (length u - 4) u) = ''.pdf'')"

definition discover :: "world \<Rightarrow> url list" where
  "discover w =
     remdups (concat (map (\<lambda>p. case page_links w p of None \<Rightarrow> [] | Some ls \<Rightarrow> filter is_pdf ls)
                          (pages w)))"

text \<open>
  Modelled from the spec: Download Manager (section 4.2), for one URL. A record is created
  pending when the URL is first seen. A URL whose record is downloaded is skipped. Otherwise
  the document is fetched: a failure marks the record failed with the reason, a success
  writes the bytes at the path of the URL, and the record becomes downloaded with the hash
  and the time.
\<close>

definition path_of :: "url \<Rightarrow> string" where
  "path_of u = ''data/pdfs/'' @ u"

definition pending_record :: "url \<Rightarrow> DocumentRecord" where
  "pending_record u =
     \<lparr>url = u, local_path = None, content_hash = None, doc_status = Pending,
      failure_reason = None, downloaded_at = None\<rparr>"

definition download_one :: "world \<Rightarrow> nat \<Rightarrow> url \<Rightarrow> store \<Rightarrow> store" where
  "download_one w now u st =
     (let r = (case map_of (manifest st) u of None \<Rightarrow> pending_record u | Some r \<Rightarrow> r)
      in if doc_status r = Downloaded then st
         else case fetch w u of
                Inl reason \<Rightarrow>
                  st\<lparr>manifest :=
                       AList.update u (r\<lparr>doc_status := Failed, failure_reason := Some reason\<rparr>)
                         (manifest st)\<rparr>
              | Inr bytes \<Rightarrow>
                  st\<lparr>manifest :=
                       AList.update u
                         (r\<lparr>local_path := Some (path_of u),
                            content_hash := Some (hash_of w bytes),
                            doc_status := Downloaded,
                            failure_reason := None,
                            downloaded_at := Some now\<rparr>)
                         (manifest st),
                     raw := AList.update u bytes (raw st)\<rparr>)"

text \<open>
  Modelled from the spec: Text Extraction Engine (section 4.3), for one URL of the manifest.
  Only a downloaded document with its bytes is extracted. The work is skipped when a text
  exists whose source hash is the hash of the record. Otherwise the native text is taken;
  when its yield (characters per page) is under the threshold and OCR is enabled and
  present, the OCR text is taken instead; a low yield that is kept is flagged. A corrupt
  file changes nothing. The second component collects the documents that are new or changed.
\<close>

definition extract_text :: "world \<Rightarrow> nat \<Rightarrow> url \<Rightarrow> nat \<Rightarrow> string \<Rightarrow> ExtractedText option" where
  "extract_text w now u h bytes =
     (case native_extract w bytes of
        None \<Rightarrow> None
      | Some (t, n) \<Rightarrow>
          let low = (length t < yield_threshold w * n);
              ocr = (if low \<and> ocr_enabled w then ocr_extract w bytes else None)
          in case ocr of
               Some t' \<Rightarrow>
                 Some \<lparr>source_url = u, text_path = ''data/text/'' @ u, extraction_method = Ocr,
                       char_count = length t', extracted_at = now, source_hash = h,
                       body = t', low_confidence = False\<rparr>
             | None \<Rightarrow>
                 Some \<lparr>source_url = u, text_path = ''data/text/'' @ u, extraction_method = Native,
                       char_count = length t, extracted_at = now, source_hash = h,
                       body = t, low_confidence = low\<rparr>)"

definition extract_one :: "world \<Rightarrow> nat \<Rightarrow> url \<Rightarrow> store \<times> url list \<Rightarrow> store \<times> url list" where
  "extract_one w now u sc =
     (let st = fst sc in
      case map_of (manifest st) u of
        None \<Rightarrow> sc
      | Some r \<Rightarrow>
          (case (doc_status r, content_hash r, map_of (raw st) u) of
             (Downloaded, Some h, Some bytes) \<Rightarrow>
               if (case map_of (texts st) u of Some t \<Rightarrow> source_hash t = h | None \<Rightarrow> False)
               then sc
               else (case extract_text w now u h bytes of
                       None \<Rightarrow> sc
                     | Some t \<Rightarrow> (st\<lparr>texts := AList.update u t (texts st)\<rparr>, snd sc @ [u]))
           | _ \<Rightarrow> sc))"

text \<open>
  Modelled from the spec: Chunker (section 4.4) and Embedding Indexer (section 4.5), for one
  new or changed document. The chunks of the text get the ordinals 0, 1, ... in order, and
  the chunk id is the source URL with the ordinal. The entries of the document are removed
  from the index, then one entry per chunk is inserted, with the metadata.
\<close>

definition entries_of :: "world \<Rightarrow> url \<Rightarrow> string \<Rightarrow> IndexEntry list" where
  "entries_of w u t =
     (let cs = chunker w t
      in map (\<lambda>(i, c). \<lparr>chunk_id = (u, i), embedding_vector = embed w (fst c),
                         meta_source_url = u, meta_ordinal = i,
                         meta_chunk_count = length cs\<rparr>)
             (zip [0..<length cs] cs))"

definition index_one :: "world \<Rightarrow> url \<Rightarrow> store \<Rightarrow> store" where
  "index_one w u st =
     (case map_of (texts st) u of
        None \<Rightarrow> st
      | Some t \<Rightarrow>
          st\<lparr>index := filter (\<lambda>e. meta_source_url e \<noteq> u) (index st) @ entries_of w u (body t)\<rparr>)"

text \<open>
  Modelled from the spec: the full pipeline (section 2): discovery, the downloads, the
  extraction of the documents of the manifest, and the indexing of the new or changed ones.
  \<open>runs\<close> invokes it once per time of a list.
\<close>

definition run :: "world \<Rightarrow> nat \<Rightarrow> store \<Rightarrow> store" where
  "run w now st =
     (let st1 = fold (download_one w now) (discover w) st;
          (st2, changed) = fold (extract_one w now) (map fst (manifest st1)) (st1, [])
      in fold (index_one w) changed st2)"

definition runs :: "world \<Rightarrow> nat list \<Rightarrow> store \<Rightarrow> store" where
  "runs w ts st = fold (run w) ts st"

text \<open>
  Modelled from the spec: what section 8 observes of a state: the number of records of each
  status, and the chunk ids of the index.
\<close>

definition status_counts :: "store \<Rightarrow> nat \<times> nat \<times> nat" where
  "status_counts st =
     (length (filter (\<lambda>p. doc_status (snd p) = Pending) (manifest st)),
      length (filter (\<lambda>p. doc_status (snd p) = Downloaded) (manifest st)),
      length (filter (\<lambda>p. doc_status (snd p) = Failed) (manifest st)))"

definition chunk_ids :: "store \<Rightarrow> (url \<times> nat) list" where
  "chunk_ids st = map chunk_id (index st)"


section \<open>The query engine\<close>

text \<open>
  Modelled from the spec: Query Engine (section 4.6), the nearest-neighbour query of
  \<open>python -m epstein query\<close>, whose sources are not among the files at hand; the endpoint
  of \<open>search.ts\<close> is a stub that answers \<open>results: []\<close> and consults no index. The
  measure of distance between two vectors is the parameter \<open>metric\<close>.
\<close>

text \<open>Modelled from the spec: an empty query is reported as an error (section 7, (f)).\<close>

datatype query_error = EmptyQuery

text \<open>
  Modelled from the spec: one result of a query (section 6): the chunk id, the distance, the
  text of the chunk, and the metadata (source URL, ordinal, number of chunks of the
  document).
\<close>

record QueryHit =
  hit_id :: "url \<times> nat"
  hit_distance :: rat
  hit_text :: string
  hit_meta :: "url \<times> nat \<times> nat"

text \<open>Modelled from the spec: k is clamped to the range 1..25 (sections 4.6 and 6).\<close>

definition clamp_k :: "int \<Rightarrow> nat" where
  "clamp_k k = nat (max 1 (min 25 k))"

text \<open>
  Modelled from the spec: the source text of an index entry (section 4.6): the chunk of
  its ordinal in the extracted text of its document, and the empty text when there is none.
\<close>

definition chunk_text :: "world \<Rightarrow> store \<Rightarrow> IndexEntry \<Rightarrow> string" where
  "chunk_text w st e =
     (case map_of (texts st) (meta_source_url e) of
        None \<Rightarrow> []
      | Some t \<Rightarrow>
          (case drop (meta_ordinal e) (chunker w (body t)) of
             [] \<Rightarrow> []
           | c # _ \<Rightarrow> fst c))"

text \<open>
  Modelled from the spec: the query (section 4.6). The query is embedded with the embedding
  function of the index; every entry gets its distance to the query; the entries are
  ordered by ascending distance, entries at the same distance in the order of insertion;
  the first k, with k clamped, are returned.
\<close>

definition query_engine ::
  "(rat list \<Rightarrow> rat list \<Rightarrow> rat) \<Rightarrow> world \<Rightarrow> store \<Rightarrow> string \<Rightarrow> int \<Rightarrow> query_error + QueryHit list"
where
  "query_engine metric w st q k =
     (if q = [] then Inl EmptyQuery
      else
        let v = embed w q;
            hits = map (\<lambda>e. \<lparr>hit_id = chunk_id e,
                              hit_distance = metric v (embedding_vector e),
                              hit_text = chunk_text w st e,
                              hit_meta = (meta_source_url e, meta_ordinal e, meta_chunk_count e)\<rparr>)
                       (index st)
        in Inr (take (clamp_k k) (sort_key hit_distance hits)))"

section \<open>Invariants of the pipeline\<close>

text \<open>
  The conditions under which a step of a stage changes nothing, and the invariant of the
  index. They are used in the proofs only.
\<close>

definition dl_ok :: "world \<Rightarrow> (url \<times> DocumentRecord) list \<Rightarrow> url \<Rightarrow> bool" where
  "dl_ok w m u =
     (case map_of m u of
        None \<Rightarrow> False
      | Some r \<Rightarrow>
          doc_status r = Downloaded \<or>
          (case fetch w u of
             Inl reason \<Rightarrow> doc_status r = Failed \<and> failure_reason r = Some reason
           | Inr _ \<Rightarrow> False))"

definition ex_ok :: "world \<Rightarrow> store \<Rightarrow> url \<Rightarrow> bool" where
  "ex_ok w st u =
     (case map_of (manifest st) u of
        None \<Rightarrow> True
      | Some r \<Rightarrow>
          (case (doc_status r, content_hash r, map_of (raw st) u) of
             (Downloaded, Some h, Some bytes) \<Rightarrow>
               (case map_of (texts st) u of Some t \<Rightarrow> source_hash t = h | None \<Rightarrow> False) \<or>
               native_extract w bytes = None
           | _ \<Rightarrow> True))"

definition ix_ok :: "IndexEntry list \<Rightarrow> bool" where
  "ix_ok ix \<longleftrightarrow> distinct (map chunk_id ix) \<and> list_all (\<lambda>e. fst (chunk_id e) = meta_source_url e) ix"


section \<open>Rounding is exact on small integers\<close>

lemma bit_length_le: "n < 2 ^ k \<Longrightarrow> bit_length n \<le> int k"
proof (induction k arbitrary: n)
  case 0
  then show ?case by (subst bit_length.simps) simp
next
  case (Suc k)
  have "n div 2 < 2 ^ k" using Suc.prems by simp
  from Suc.IH [OF this] show ?case by (subst bit_length.simps) simp
qed

lemma bit_length_1: "bit_length 1 = 1"
  by (simp add: bit_length.simps)

lemma floor_log2_int_le:
  assumes "0 < n" "n < 2 ^ 53"
  shows "floor_log2 (of_int n) \<le> 52"
proof -
  have "bit_length n \<le> 53" using bit_length_le [of n 53] assms by simp
  then show ?thesis
    by (simp add: floor_log2_def quotient_of_int bit_length_1 Let_def)
qed

lemma roundTiesToEven_of_int: "roundTiesToEven (of_int k) = k"
  by (simp add: roundTiesToEven_def Let_def)

lemma round_double_int:
  assumes "0 < n" "n < 2 ^ 53"
  shows "round_double (of_int n) = Num (of_int n)"
proof -
  define e where "e = max (floor_log2 (of_int n)) (- 1022)"
  have e: "- 1022 \<le> e" "e \<le> 52"
    using floor_log2_int_le [OF assms] by (simp_all add: e_def)
  define m where "m = nat (52 - e)"
  have ulp: "pow_int 2 (e - 52) = 1 / 2 ^ m"
    using e by (auto simp: pow_int_def m_def nat_diff_distrib)
  have q: "rat_of_int n / (1 / 2 ^ m) = of_int (n * 2 ^ m)" by simp
  have r: "roundTiesToEven (of_int (n * 2 ^ m)) = n * 2 ^ m"
    by (rule roundTiesToEven_of_int)
  have big: "\<not> pow_int 2 1024 \<le> rat_of_int n"
  proof -
    have "rat_of_int n < of_int (2 ^ 53)" using assms(2) by (simp only: of_int_less_iff)
    also have "\<dots> \<le> 2 ^ 1024" by simp
    finally show ?thesis by (simp add: pow_int_def)
  qed
  have a: "\<bar>rat_of_int n\<bar> = of_int n" using assms by simp
  show ?thesis
    unfolding round_double_def Let_def a e_def [symmetric] ulp q r
    using assms(1) big by simp
qed

section \<open>Evaluating the parser on literals\<close>

lemmas Number_eval =
  Number_def ascii_def trim_def isWhiteSpace_def NonDecimalIntegerLiteral_def
  StrUnsignedDecimalLiteral_def isDecimalDigit_def ExponentPart_def digitOf_def pow_int_def

lemma Number_8: "Number (ascii ''8'') = Num 8"
  using round_double_int [of 8] by (simp add: Number_eval)

lemma Number_200: "Number (ascii ''200'') = Num 200"
  using round_double_int [of 200] by (simp add: Number_eval)


lemma Number_abc: "Number (ascii ''abc'') = NaN"
  by (simp add: Number_eval)

section \<open>\<open>clampK\<close>\<close>

lemma clampK_Num: "clampK (Num v) = Num (max 1 (min 25 (of_int \<lfloor>v\<rfloor>)))"
  by (simp add: clampK_def Number_isFinite_def Math_floor_def)

lemma clampK_not_finite: "\<not> Number_isFinite k \<Longrightarrow> clampK k = Num 8"
  by (simp add: clampK_def)

lemma clamp_int: "max 1 (min 25 (rat_of_int i)) = of_int (max 1 (min 25 i))"
  by (simp add: max_def min_def)

lemma clampK_int_range: "\<exists>n. clampK k = Num (of_int n) \<and> 1 \<le> n \<and> n \<le> 25"
proof (cases "Number_isFinite k")
  case False
  then have "clampK k = Num (of_int 8)" by (simp add: clampK_not_finite)
  then show ?thesis by (intro exI [of _ 8]) simp
next
  case True
  then obtain v where "k = Num v" by (cases k) (simp_all add: Number_isFinite_def)
  then have "clampK k = Num (of_int (max 1 (min 25 \<lfloor>v\<rfloor>)))"
    by (simp only: clampK_Num clamp_int)
  then show ?thesis by (intro exI [of _ "max 1 (min 25 \<lfloor>v\<rfloor>)"]) simp
qed

section \<open>\<open>trim\<close>\<close>

lemma trim_Nil: "trim [] = []"
  by (simp add: trim_def)

lemma trim_empty_iff: "trim s = [] \<longleftrightarrow> (\<forall>c \<in> set s. isWhiteSpace c)"
proof
  assume all: "\<forall>c \<in> set s. isWhiteSpace c"
  then have "dropWhile isWhiteSpace s = []" by (simp only: dropWhile_eq_Nil_conv)
  then show "trim s = []" by (simp only: trim_def rev.simps dropWhile.simps)
next
  assume e: "trim s = []"
  let ?d = "dropWhile isWhiteSpace s"
  have "\<forall>c \<in> set ?d. isWhiteSpace c"
    using e by (simp add: trim_def dropWhile_eq_Nil_conv)
  moreover have "?d \<noteq> [] \<Longrightarrow> \<not> isWhiteSpace (hd ?d)" by (rule hd_dropWhile)
  ultimately have "?d = []" by (cases ?d) auto
  then show "\<forall>c \<in> set s. isWhiteSpace c" by (simp only: dropWhile_eq_Nil_conv)
qed

lemma trim_all_white: "(\<forall>c \<in> set s. isWhiteSpace c) \<Longrightarrow> trim s = []"
  by (simp only: trim_empty_iff)

lemma trim_hd: "trim s \<noteq> [] \<Longrightarrow> \<not> isWhiteSpace (hd (trim s))"
proof -
  assume ne: "trim s \<noteq> []"
  let ?d = "dropWhile isWhiteSpace s"
  have d: "?d \<noteq> []" using ne by (auto simp: trim_def dest: set_dropWhileD)
  have h: "\<not> isWhiteSpace (hd ?d)" using d by (rule hd_dropWhile)
  obtain x xs where x: "?d = x # xs" using d by (cases ?d) auto
  with h have nx: "\<not> isWhiteSpace x" by simp
  have "rev (dropWhile isWhiteSpace (rev (x # xs))) = x # rev (dropWhile isWhiteSpace (rev xs))
        \<or> rev (dropWhile isWhiteSpace (rev (x # xs))) = [x]"
    using nx by (simp add: dropWhile_append)
  then show ?thesis using nx by (auto simp: trim_def x)
qed

lemma trim_last: "trim s \<noteq> [] \<Longrightarrow> \<not> isWhiteSpace (last (trim s))"
proof -
  assume ne: "trim s \<noteq> []"
  let ?r = "dropWhile isWhiteSpace (rev (dropWhile isWhiteSpace s))"
  have r: "?r \<noteq> []" using ne by (simp add: trim_def)
  have "\<not> isWhiteSpace (hd ?r)" using r by (rule hd_dropWhile)
  then show ?thesis using r by (simp add: trim_def last_rev)
qed

section \<open>The two branches of \<open>search\<close>\<close>

lemma search_missing:
  "trim (logical_or (query_get (query request) (ascii ''q'')) []) = [] \<Longrightarrow>
   search request =
     \<lparr>status = 400,
      jsonBody = JObject [(''error'', JString (ascii ''Missing required query param: q''))]\<rparr>"
  by (simp add: search_def Let_def)

lemma search_found:
  "trim (logical_or (query_get (query request) (ascii ''q'')) []) \<noteq> [] \<Longrightarrow>
   search request =
     \<lparr>status = 200,
      jsonBody = JObject
        [(''q'', JString (trim (logical_or (query_get (query request) (ascii ''q'')) []))),
         (''k'', JNumber (clampK (Number
            (logical_or (query_get (query request) (ascii ''k'')) (ascii ''8''))))),
         (''results'', JArray [])]\<rparr>"
  by (simp add: search_def Let_def)

lemma status_200_iff:
  "status (search request) = 200 \<longleftrightarrow>
   trim (logical_or (query_get (query request) (ascii ''q'')) []) \<noteq> []"
  by (simp add: search_def Let_def)


section \<open>The download stage settles every discovered URL\<close>

lemma download_one_noop:
  assumes "dl_ok w (manifest st) u"
  shows "download_one w t u st = st"
proof -
  from assms obtain r where r: "map_of (manifest st) u = Some r"
    by (auto simp: dl_ok_def split: option.splits)
  show ?thesis
  proof (cases "doc_status r = Downloaded")
    case True
    then show ?thesis by (simp add: download_one_def r)
  next
    case False
    with assms r obtain reason where f: "fetch w u = Inl reason"
      and s: "doc_status r = Failed" "failure_reason r = Some reason"
      by (auto simp: dl_ok_def split: sum.splits)
    have "r\<lparr>doc_status := Failed, failure_reason := Some reason\<rparr> = r"
      using s by simp
    then have "AList.update u (r\<lparr>doc_status := Failed, failure_reason := Some reason\<rparr>)
                 (manifest st) = manifest st"
      using r by (simp add: update_triv)
    then show ?thesis using False by (simp add: download_one_def r f)
  qed
qed

lemma download_one_settles: "dl_ok w (manifest (download_one w t u st)) u"
  by (auto simp: download_one_def dl_ok_def Let_def update_conv' pending_record_def
      split: option.splits sum.splits)

lemma download_one_keeps:
  assumes "dl_ok w (manifest st) u"
  shows "dl_ok w (manifest (download_one w t v st)) u"
proof (cases "v = u")
  case True
  then show ?thesis using assms by (simp add: download_one_noop)
next
  case False
  then have "map_of (manifest (download_one w t v st)) u = map_of (manifest st) u"
    by (auto simp: download_one_def Let_def update_conv' split: option.splits sum.splits)
  then show ?thesis using assms by (simp add: dl_ok_def)
qed

lemma download_fold_keeps:
  "dl_ok w (manifest st) u \<Longrightarrow> dl_ok w (manifest (fold (download_one w t) us st)) u"
  by (induction us arbitrary: st) (simp_all add: download_one_keeps)

lemma download_fold_settles:
  "u \<in> set us \<Longrightarrow> dl_ok w (manifest (fold (download_one w t) us st)) u"
proof (induction us arbitrary: st)
  case Nil
  then show ?case by simp
next
  case (Cons v us)
  show ?case
  proof (cases "u = v")
    case True
    then show ?thesis by (simp add: download_fold_keeps download_one_settles)
  next
    case False
    with Cons show ?thesis by simp
  qed
qed

lemma download_fold_noop:
  "(\<And>u. u \<in> set us \<Longrightarrow> dl_ok w (manifest st) u) \<Longrightarrow> fold (download_one w t) us st = st"
  by (induction us) (simp_all add: download_one_noop)

lemma download_one_index: "index (download_one w t u st) = index st"
  by (simp add: download_one_def Let_def split: option.splits sum.splits)

lemma download_fold_index: "index (fold (download_one w t) us st) = index st"
  by (induction us arbitrary: st) (simp_all add: download_one_index)

section \<open>The extraction stage settles every document of the manifest\<close>

lemma extract_text_None: "extract_text w t u h b = None \<longleftrightarrow> native_extract w b = None"
  by (auto simp: extract_text_def Let_def split: option.splits prod.splits)

lemma extract_one_frame:
  "manifest (fst (extract_one w t u sc)) = manifest (fst sc)"
  "raw (fst (extract_one w t u sc)) = raw (fst sc)"
  "index (fst (extract_one w t u sc)) = index (fst sc)"
  by (auto simp: extract_one_def Let_def
      split: option.splits doc_status.splits prod.splits)

lemma extract_fold_frame:
  "manifest (fst (fold (extract_one w t) us sc)) = manifest (fst sc)"
  "raw (fst (fold (extract_one w t) us sc)) = raw (fst sc)"
  "index (fst (fold (extract_one w t) us sc)) = index (fst sc)"
  by (induction us arbitrary: sc) (simp_all add: extract_one_frame)

lemma extract_text_Some_native:
  "extract_text w t u h b = Some x \<Longrightarrow> \<exists>a n. native_extract w b = Some (a, n)"
  by (auto simp: extract_text_def split: option.splits)

lemma extract_one_noop:
  assumes "ex_ok w (fst sc) u"
  shows "extract_one w t u sc = sc"
  using assms
  by (auto simp: ex_ok_def extract_one_def Let_def
      split: option.splits doc_status.splits prod.splits
      dest: extract_text_Some_native)

lemma extract_one_settles: "ex_ok w (fst (extract_one w t u sc)) u"
  by (auto simp: ex_ok_def extract_one_def Let_def extract_text_None update_conv'
      extract_text_def
      split: option.splits doc_status.splits prod.splits)

lemma extract_one_texts_other:
  "v \<noteq> u \<Longrightarrow> map_of (texts (fst (extract_one w t v sc))) u = map_of (texts (fst sc)) u"
  by (auto simp: extract_one_def Let_def update_conv'
      split: option.splits doc_status.splits prod.splits)

lemma ex_ok_cong:
  "manifest a = manifest b \<Longrightarrow> raw a = raw b \<Longrightarrow> map_of (texts a) u = map_of (texts b) u \<Longrightarrow>
   ex_ok w a u = ex_ok w b u"
  by (simp add: ex_ok_def cong: option.case_cong prod.case_cong doc_status.case_cong)

lemma extract_one_keeps:
  assumes "ex_ok w (fst sc) u"
  shows "ex_ok w (fst (extract_one w t v sc)) u"
proof (cases "v = u")
  case True
  then show ?thesis using assms by (simp add: extract_one_noop)
next
  case False
  have "ex_ok w (fst (extract_one w t v sc)) u = ex_ok w (fst sc) u"
    by (rule ex_ok_cong) (simp_all add: extract_one_frame extract_one_texts_other [OF False])
  with assms show ?thesis by simp
qed

lemma extract_fold_keeps:
  "ex_ok w (fst sc) u \<Longrightarrow> ex_ok w (fst (fold (extract_one w t) us sc)) u"
  by (induction us arbitrary: sc) (simp_all add: extract_one_keeps)

lemma extract_fold_settles:
  "u \<in> set us \<Longrightarrow> ex_ok w (fst (fold (extract_one w t) us sc)) u"
proof (induction us arbitrary: sc)
  case Nil
  then show ?case by simp
next
  case (Cons v us)
  show ?case
  proof (cases "u = v")
    case True
    then show ?thesis by (simp add: extract_fold_keeps extract_one_settles)
  next
    case False
    with Cons show ?thesis by simp
  qed
qed

lemma extract_fold_noop:
  "(\<And>u. u \<in> set us \<Longrightarrow> ex_ok w (fst sc) u) \<Longrightarrow> fold (extract_one w t) us sc = sc"
  by (induction us) (simp_all add: extract_one_noop)

section \<open>The indexing stage\<close>

lemma index_one_frame:
  "manifest (index_one w u st) = manifest st"
  "raw (index_one w u st) = raw st"
  "texts (index_one w u st) = texts st"
  by (simp_all add: index_one_def split: option.splits)

lemma index_fold_frame:
  "manifest (fold (index_one w) us st) = manifest st"
  "raw (fold (index_one w) us st) = raw st"
  "texts (fold (index_one w) us st) = texts st"
  by (induction us arbitrary: st) (simp_all add: index_one_frame)

lemma entries_of_ids: "map chunk_id (entries_of w u t) = map (Pair u) [0..<length (chunker w t)]"
  by (auto simp: entries_of_def Let_def intro!: nth_equalityI)

lemma entries_of_source: "e \<in> set (entries_of w u t) \<Longrightarrow> meta_source_url e = u \<and> fst (chunk_id e) = u"
  by (auto simp: entries_of_def Let_def)

lemma index_one_ok:
  assumes "ix_ok (index st)"
  shows "ix_ok (index (index_one w u st))"
proof (cases "map_of (texts st) u")
  case None
  then show ?thesis using assms by (simp add: index_one_def)
next
  case (Some t)
  let ?old = "filter (\<lambda>e. meta_source_url e \<noteq> u) (index st)"
  let ?new = "entries_of w u (body t)"
  have d1: "distinct (map chunk_id ?old)"
    using assms by (simp add: ix_ok_def distinct_map_filter)
  have d2: "distinct (map chunk_id ?new)"
    by (simp add: entries_of_ids distinct_map inj_on_def)
  have o: "\<And>e. e \<in> set ?old \<Longrightarrow> fst (chunk_id e) \<noteq> u"
    using assms by (auto simp: ix_ok_def list_all_iff)
  have n: "\<And>e. e \<in> set ?new \<Longrightarrow> fst (chunk_id e) = u"
    by (simp add: entries_of_source)
  have neq: "chunk_id a \<noteq> chunk_id b" if "a \<in> set ?old" "b \<in> set ?new" for a b
    using o [OF that(1)] n [OF that(2)] by auto
  have dj: "set (map chunk_id ?old) \<inter> set (map chunk_id ?new) = {}"
  proof -
    have "chunk_id ` set ?old \<inter> chunk_id ` set ?new = {}"
      using neq by blast
    then show ?thesis by (simp only: set_map)
  qed
  have src: "list_all (\<lambda>e. fst (chunk_id e) = meta_source_url e) (?old @ ?new)"
    using assms by (auto simp: ix_ok_def list_all_iff entries_of_source)
  show ?thesis
    using d1 d2 dj src by (simp add: index_one_def Some ix_ok_def)
qed

lemma index_fold_ok: "ix_ok (index st) \<Longrightarrow> ix_ok (index (fold (index_one w) us st))"
  by (induction us arbitrary: st) (simp_all add: index_one_ok)

section \<open>A run, and a run after a run\<close>

lemma run_ix_ok:
  assumes "ix_ok (index st)"
  shows "ix_ok (index (run w t st))"
proof -
  let ?st1 = "fold (download_one w t) (discover w) st"
  let ?sc = "fold (extract_one w t) (map fst (manifest ?st1)) (?st1, [])"
  have "ix_ok (index (fst ?sc))"
    using assms by (simp add: extract_fold_frame download_fold_index)
  then have "ix_ok (index (fold (index_one w) (snd ?sc) (fst ?sc)))"
    by (rule index_fold_ok)
  then show ?thesis by (simp add: run_def Let_def case_prod_beta)
qed

lemma run_run:
  "run w t' (run w t st) = run w t st"
proof -
  let ?st1 = "fold (download_one w t) (discover w) st"
  let ?sc = "fold (extract_one w t) (map fst (manifest ?st1)) (?st1, [])"
  let ?s = "fold (index_one w) (snd ?sc) (fst ?sc)"
  have s: "run w t st = ?s" by (simp add: run_def Let_def case_prod_beta)
  have m: "manifest ?s = manifest ?st1"
    by (simp add: index_fold_frame extract_fold_frame)
  have r: "raw ?s = raw (fst ?sc)" and x: "texts ?s = texts (fst ?sc)"
    by (simp_all add: index_fold_frame)
  have m2: "manifest ?s = manifest (fst ?sc)"
    by (simp add: index_fold_frame)
  have d: "fold (download_one w t') (discover w) ?s = ?s"
  proof (rule download_fold_noop)
    fix u assume "u \<in> set (discover w)"
    then show "dl_ok w (manifest ?s) u" by (simp only: m download_fold_settles)
  qed
  have e: "fold (extract_one w t') (map fst (manifest ?s)) (?s, []) = (?s, [])"
  proof (rule extract_fold_noop)
    fix u assume "u \<in> set (map fst (manifest ?s))"
    then have "u \<in> set (map fst (manifest ?st1))" by (simp only: m)
    then have "ex_ok w (fst ?sc) u" by (rule extract_fold_settles)
    moreover have "ex_ok w ?s u = ex_ok w (fst ?sc) u"
      by (rule ex_ok_cong) (simp_all only: m2 r x)
    ultimately show "ex_ok w (fst (?s, [])) u" by simp
  qed
  have "run w t' ?s = ?s"
    by (simp add: run_def [of w t' ?s] Let_def d e)
  then show ?thesis by (simp only: s)
qed

lemma runs_Cons: "runs w (t # ts) st = run w t st"
proof (induction ts)
  case Nil
  then show ?case by (simp add: runs_def)
next
  case (Cons a ts)
  have "runs w (t # a # ts) st = fold (run w) ts (run w a (run w t st))"
    by (simp add: runs_def)
  also have "\<dots> = fold (run w) ts (run w t st)" by (simp only: run_run)
  also have "\<dots> = runs w (t # ts) st" by (simp add: runs_def)
  finally show ?case using Cons by simp
qed


section \<open>The promise is fulfilled; the query engine sorts and cuts\<close>

lemma call_trim_null: "call_trim None = Inl TypeError"
  by (simp add: call_trim_def)

lemma or_value_string: "or_value a (Some b) = Some (logical_or a b)"
  by (simp add: or_value_def logical_or_def split: option.splits)

lemma Number_value_Some: "Number_value (Some s) = Number s"
  by (simp add: Number_value_def)

lemma search_promise_fulfilled: "search_promise request = Fulfilled (search request)"
  by (simp add: search_promise_def search_def or_value_string call_trim_def Number_value_Some
      Let_def)

lemma clamp_k_range: "1 \<le> clamp_k k \<and> clamp_k k \<le> 25"
  unfolding clamp_k_def by linarith

lemma clamp_k_le: "1 \<le> k \<Longrightarrow> int (clamp_k k) \<le> k"
  unfolding clamp_k_def by linarith

lemma query_engine_Inr:
  assumes "query_engine metric w st q k = Inr rs"
  shows "\<exists>hits. length hits = length (index st) \<and> sorted (map hit_distance hits) \<and>
                rs = take (clamp_k k) hits"
proof -
  let ?hits = "map (\<lambda>e. \<lparr>hit_id = chunk_id e,
                           hit_distance = metric (embed w q) (embedding_vector e),
                           hit_text = chunk_text w st e,
                           hit_meta = (meta_source_url e, meta_ordinal e, meta_chunk_count e)\<rparr>)
                    (index st)"
  have "rs = take (clamp_k k) (sort_key hit_distance ?hits)"
    using assms by (simp add: query_engine_def Let_def split: if_splits)
  moreover have "length (sort_key hit_distance ?hits) = length (index st)" by simp
  moreover have "sorted (map hit_distance (sort_key hit_distance ?hits))"
    by (rule sorted_sort_key)
  ultimately show ?thesis by blast
qed

lemma query_get_without:
  "query_get (filter (\<lambda>p. fst p \<noteq> a) ps) b = (if b = a then None else query_get ps b)"
  by (induction ps) (auto simp: query_get_def)

lemmas request_eval = query_get_def logical_or_def ascii_def trim_def isWhiteSpace_def

section \<open>The claims about the search endpoint\<close>



text \<open>
  C2. A request whose q is missing or empty gets the client error: status 400 with an
  error message in the body, and no success response with a results list.
\<close>

theorem search_missing_q_is_client_error:
  assumes "query_get (query request) (ascii ''q'') = None \<or>
           query_get (query request) (ascii ''q'') = Some []"
  shows "search request =
           \<lparr>status = 400,
            jsonBody = JObject [(''error'', JString (ascii ''Missing required query param: q''))]\<rparr> \<and>
         status (search request) \<noteq> 200 \<and>
         field (jsonBody (search request)) ''results'' = None"
proof -
  have "trim (logical_or (query_get (query request) (ascii ''q'')) []) = []"
    using assms by (auto simp: logical_or_def trim_Nil)
  from search_missing [OF this] show ?thesis by (simp add: field_def)
qed

theorem search_missing_q_is_client_error_witness:
  "search \<lparr>query = [(ascii ''k'', ascii ''5'')]\<rparr> =
     \<lparr>status = 400,
      jsonBody = JObject [(''error'', JString (ascii ''Missing required query param: q''))]\<rparr> \<and>
   search \<lparr>query = [(ascii ''q'', [])]\<rparr> =
     \<lparr>status = 400,
      jsonBody = JObject [(''error'', JString (ascii ''Missing required query param: q''))]\<rparr>"
proof -
  have a: "query_get (query \<lparr>query = [(ascii ''k'', ascii ''5'')]\<rparr>) (ascii ''q'') = None"
    by (simp add: query_get_def ascii_def)
  have b: "query_get (query \<lparr>query = [(ascii ''q'', [])]\<rparr>) (ascii ''q'') = Some []"
    by (simp add: query_get_def)
  show ?thesis
    using search_missing_q_is_client_error [OF disjI1, OF a]
      search_missing_q_is_client_error [OF disjI2, OF b]
    by blast
qed

text \<open>
  C3, as the claim states it, fails: a k that is present and is not a number is not
  reported. With q = "flight logs" and k = "abc" the handler answers 200 and uses 8.
\<close>

theorem search_non_numeric_k_counterexample:
  "query_get (query \<lparr>query = [(ascii ''q'', ascii ''flight logs''), (ascii ''k'', ascii ''abc'')]\<rparr>)
     (ascii ''k'') = Some (ascii ''abc'') \<and>
   \<not> Number_isFinite (Number (ascii ''abc'')) \<and>
   search \<lparr>query = [(ascii ''q'', ascii ''flight logs''), (ascii ''k'', ascii ''abc'')]\<rparr> =
     \<lparr>status = 200,
      jsonBody = JObject [(''q'', JString (ascii ''flight logs'')), (''k'', JNumber (Num 8)),
                          (''results'', JArray [])]\<rparr>"
proof -
  let ?r = "\<lparr>query = [(ascii ''q'', ascii ''flight logs''), (ascii ''k'', ascii ''abc'')]\<rparr>"
  have q: "trim (logical_or (query_get (query ?r) (ascii ''q'')) []) = ascii ''flight logs''"
    by (simp add: request_eval)
  have ne: "ascii ''flight logs'' \<noteq> []" by (simp add: ascii_def)
  have g: "query_get (query ?r) (ascii ''k'') = Some (ascii ''abc'')"
    by (simp add: query_get_def ascii_def)
  have k: "logical_or (query_get (query ?r) (ascii ''k'')) (ascii ''8'') = ascii ''abc''"
    by (simp add: query_get_def logical_or_def ascii_def)
  have nf: "\<not> Number_isFinite (Number (ascii ''abc''))"
    by (simp add: Number_abc Number_isFinite_def)
  have "search ?r = \<lparr>status = 200,
      jsonBody = JObject [(''q'', JString (ascii ''flight logs'')), (''k'', JNumber (Num 8)),
                          (''results'', JArray [])]\<rparr>"
    using search_found [of ?r] ne by (simp only: q k Number_abc) (simp add: clampK_def Number_isFinite_def)
  with g nf show ?thesis by blast
qed

text \<open>
  C3, amended. A k that is present and does not parse to a finite number causes no
  error and no crash: the handler goes on with the default 8. The response is the success
  response with k = 8 when the trimmed q is not empty, and the missing-q error otherwise.
\<close>

theorem search_non_numeric_k_defaults:
  assumes "query_get (query request) (ascii ''k'') = Some ks"
    and "\<not> Number_isFinite (Number ks)"
  shows "search request =
           (if trim (logical_or (query_get (query request) (ascii ''q'')) []) = [] then
              \<lparr>status = 400,
               jsonBody = JObject [(''error'', JString (ascii ''Missing required query param: q''))]\<rparr>
            else
              \<lparr>status = 200,
               jsonBody = JObject
                 [(''q'', JString (trim (logical_or (query_get (query request) (ascii ''q'')) []))),
                  (''k'', JNumber (Num 8)),
                  (''results'', JArray [])]\<rparr>)"
proof -
  have "ks \<noteq> []"
  proof
    assume "ks = []"
    then have "Number ks = Num 0" by (simp add: Number_def trim_Nil)
    with assms(2) show False by (simp add: Number_isFinite_def)
  qed
  then have "logical_or (query_get (query request) (ascii ''k'')) (ascii ''8'') = ks"
    using assms(1) by (simp add: logical_or_def)
  then have "clampK (Number (logical_or (query_get (query request) (ascii ''k'')) (ascii ''8'')))
             = Num 8"
    using assms(2) by (simp add: clampK_not_finite)
  then show ?thesis by (simp add: search_def Let_def)
qed

theorem search_non_numeric_k_defaults_witness:
  "search \<lparr>query = [(ascii ''q'', ascii ''logs''), (ascii ''k'', ascii ''abc'')]\<rparr> =
     \<lparr>status = 200,
      jsonBody = JObject [(''q'', JString (ascii ''logs'')), (''k'', JNumber (Num 8)),
                          (''results'', JArray [])]\<rparr>"
proof -
  let ?r = "\<lparr>query = [(ascii ''q'', ascii ''logs''), (ascii ''k'', ascii ''abc'')]\<rparr>"
  have q: "trim (logical_or (query_get (query ?r) (ascii ''q'')) []) = ascii ''logs''"
    by (simp add: request_eval)
  have ne: "ascii ''logs'' \<noteq> []" by (simp add: ascii_def)
  have g: "query_get (query ?r) (ascii ''k'') = Some (ascii ''abc'')"
    by (simp add: query_get_def ascii_def)
  have nf: "\<not> Number_isFinite (Number (ascii ''abc''))"
    by (simp add: Number_abc Number_isFinite_def)
  show ?thesis
    using search_non_numeric_k_defaults [OF g nf] ne by (simp only: q) simp
qed

text \<open>
  C4. Against the query engine as the specification describes it: a query that succeeds
  returns at most k results, k being the clamped parameter (so at most 25, and at most the k
  of the caller when that is 1 or more), as many as the index allows, sorted by
  non-decreasing distance; a non-empty query always succeeds, and on an empty index it
  succeeds with the empty list.
\<close>

theorem query_results_bounded_sorted:
  "(\<forall>rs. query_engine metric w st q k = Inr rs \<longrightarrow>
      length rs \<le> clamp_k k \<and> clamp_k k \<le> 25 \<and>
      (1 \<le> k \<longrightarrow> int (length rs) \<le> k) \<and>
      length rs = min (clamp_k k) (length (index st)) \<and>
      sorted (map hit_distance rs)) \<and>
   (q \<noteq> [] \<longrightarrow> (\<exists>rs. query_engine metric w st q k = Inr rs)) \<and>
   (q \<noteq> [] \<and> index st = [] \<longrightarrow> query_engine metric w st q k = Inr [])"
proof (intro conjI allI impI)
  fix rs
  assume a: "query_engine metric w st q k = Inr rs"
  from query_engine_Inr [OF a] obtain hits where h:
    "length hits = length (index st)" "sorted (map hit_distance hits)"
    "rs = take (clamp_k k) hits" by blast
  show l: "length rs \<le> clamp_k k" using h(3) by simp
  show "clamp_k k \<le> 25" using clamp_k_range by blast
  show "length rs = min (clamp_k k) (length (index st))" using h(1,3) by simp
  have "sorted (take (clamp_k k) (map hit_distance hits))"
    using h(2) by (rule sorted_wrt_take)
  then show "sorted (map hit_distance rs)" by (simp add: h(3) take_map)
  assume "1 \<le> k"
  then have "int (clamp_k k) \<le> k" by (rule clamp_k_le)
  with l show "int (length rs) \<le> k" by linarith
next
  assume "q \<noteq> []"
  then show "\<exists>rs. query_engine metric w st q k = Inr rs"
    by (simp add: query_engine_def Let_def)
next
  assume "q \<noteq> [] \<and> index st = []"
  then show "query_engine metric w st q k = Inr []"
    by (simp add: query_engine_def Let_def)
qed

theorem query_results_bounded_sorted_witness:
  "map (\<lambda>h. (hit_id h, hit_distance h))
     (projr (query_engine (\<lambda>a b. \<bar>hd a - hd b\<bar>)
        \<lparr>pages = [], page_links = (\<lambda>p. None), fetch = (\<lambda>u. Inl ''404''), hash_of = length,
         native_extract = (\<lambda>b. None), ocr_extract = (\<lambda>b. None), ocr_enabled = False,
         yield_threshold = 5, chunker = (\<lambda>t. []), embed = (\<lambda>t. [10])\<rparr>
        \<lparr>manifest = [], raw = [], texts = [],
         index = [\<lparr>chunk_id = (''a.pdf'', 0), embedding_vector = [17],
                    meta_source_url = ''a.pdf'', meta_ordinal = 0, meta_chunk_count = 2\<rparr>,
                  \<lparr>chunk_id = (''a.pdf'', 1), embedding_vector = [12],
                    meta_source_url = ''a.pdf'', meta_ordinal = 1, meta_chunk_count = 2\<rparr>,
                  \<lparr>chunk_id = (''b.pdf'', 0), embedding_vector = [8],
                    meta_source_url = ''b.pdf'', meta_ordinal = 0, meta_chunk_count = 1\<rparr>]\<rparr>
        ''flight logs'' 2))
   = [((''a.pdf'', 1), 2), ((''b.pdf'', 0), 2)] \<and>
   query_engine (\<lambda>a b. \<bar>hd a - hd b\<bar>)
        \<lparr>pages = [], page_links = (\<lambda>p. None), fetch = (\<lambda>u. Inl ''404''), hash_of = length,
         native_extract = (\<lambda>b. None), ocr_extract = (\<lambda>b. None), ocr_enabled = False,
         yield_threshold = 5, chunker = (\<lambda>t. []), embed = (\<lambda>t. [10])\<rparr>
        empty_store ''flight logs'' 200 = Inr []"
proof -
  let ?m = "\<lambda>a b :: rat list. \<bar>hd a - hd b\<bar>"
  let ?w = "\<lparr>pages = [], page_links = (\<lambda>p. None), fetch = (\<lambda>u. Inl ''404''), hash_of = length,
         native_extract = (\<lambda>b. None), ocr_extract = (\<lambda>b. None), ocr_enabled = False,
         yield_threshold = 5, chunker = (\<lambda>t. []), embed = (\<lambda>t. [10 :: rat])\<rparr>"
  have e: "index empty_store = []" by (simp add: empty_store_def)
  have n: "''flight logs'' \<noteq> []" by simp
  have b: "query_engine ?m ?w empty_store ''flight logs'' 200 = Inr []"
    using query_results_bounded_sorted [of ?m ?w empty_store "''flight logs''" 200] e n by blast
  have a: "map (\<lambda>h. (hit_id h, hit_distance h))
     (projr (query_engine ?m ?w
        \<lparr>manifest = [], raw = [], texts = [],
         index = [\<lparr>chunk_id = (''a.pdf'', 0), embedding_vector = [17],
                    meta_source_url = ''a.pdf'', meta_ordinal = 0, meta_chunk_count = 2\<rparr>,
                  \<lparr>chunk_id = (''a.pdf'', 1), embedding_vector = [12],
                    meta_source_url = ''a.pdf'', meta_ordinal = 1, meta_chunk_count = 2\<rparr>,
                  \<lparr>chunk_id = (''b.pdf'', 0), embedding_vector = [8],
                    meta_source_url = ''b.pdf'', meta_ordinal = 0, meta_chunk_count = 1\<rparr>]\<rparr>
        ''flight logs'' 2))
   = [((''a.pdf'', 1), 2), ((''b.pdf'', 0), 2)]"
    by (simp add: query_engine_def Let_def clamp_k_def)
  from a b show ?thesis by (rule conjI)
qed

text \<open>
  C5. The body of a successful response is exactly the object \<open>{ q, k, results }\<close>: q is
  the trimmed query string, k the integer of [1, 25] that \<open>clampK\<close> returned, and the
  body has the type \<open>SearchResponse\<close>, whose results are of type \<open>SearchResult\<close> (id,
  distance, text and meta).
\<close>

theorem search_response_shape:
  assumes "status (search request) = 200"
  shows "\<exists>n. jsonBody (search request) =
               JObject
                 [(''q'', JString (trim (logical_or (query_get (query request) (ascii ''q'')) []))),
                  (''k'', JNumber (Num (of_int n))),
                  (''results'', JArray [])] \<and>
             clampK (Number (logical_or (query_get (query request) (ascii ''k'')) (ascii ''8'')))
               = Num (of_int n) \<and>
             1 \<le> n \<and> n \<le> 25 \<and>
             is_SearchResponse (jsonBody (search request))"
proof -
  have q: "trim (logical_or (query_get (query request) (ascii ''q'')) []) \<noteq> []"
    using assms status_200_iff by blast
  obtain n where n:
    "clampK (Number (logical_or (query_get (query request) (ascii ''k'')) (ascii ''8'')))
       = Num (of_int n)" "1 \<le> n" "n \<le> 25"
    using clampK_int_range by blast
  have b: "jsonBody (search request) =
               JObject
                 [(''q'', JString (trim (logical_or (query_get (query request) (ascii ''q'')) []))),
                  (''k'', JNumber (Num (of_int n))),
                  (''results'', JArray [])]"
    using search_found [OF q] n(1) by simp
  have "is_SearchResponse (jsonBody (search request))"
    by (simp add: b is_SearchResponse_def field_def is_string_def is_number_def)
  with b n show ?thesis by blast
qed

theorem search_response_shape_witness:
  "jsonBody (search \<lparr>query = [(ascii ''q'', ascii '' flight logs ''), (ascii ''k'', ascii ''200'')]\<rparr>) =
     JObject [(''q'', JString (ascii ''flight logs'')), (''k'', JNumber (Num 25)),
              (''results'', JArray [])]"
proof -
  let ?r = "\<lparr>query = [(ascii ''q'', ascii '' flight logs ''), (ascii ''k'', ascii ''200'')]\<rparr>"
  have q: "trim (logical_or (query_get (query ?r) (ascii ''q'')) []) = ascii ''flight logs''"
    by (simp add: request_eval)
  have ne: "ascii ''flight logs'' \<noteq> []" by (simp add: ascii_def)
  have s: "status (search ?r) = 200" using ne status_200_iff [of ?r] by (simp only: q) simp
  have k: "clampK (Number (logical_or (query_get (query ?r) (ascii ''k'')) (ascii ''8''))) = Num 25"
    using Number_200 by (simp add: query_get_def logical_or_def ascii_def clampK_Num)
  from search_response_shape [OF s] show ?thesis by (auto simp only: q k) 
qed

text \<open>
  C6. The handler never throws: for every request, with q and k each a string or absent,
  the promise it returns is fulfilled, never rejected, and it is fulfilled with the
  response of \<open>search\<close>, whose status is 200 or 400. The one operation that can throw,
  \<open>trim\<close> on null, is never reached with null, because \<open>|| ""\<close> comes first.
\<close>

theorem search_never_throws:
  "search_promise request = Fulfilled (search request) \<and>
   (\<forall>e. search_promise request \<noteq> Rejected e) \<and>
   (status (search request) = 200 \<or> status (search request) = 400)"
proof -
  have f: "search_promise request = Fulfilled (search request)"
    by (rule search_promise_fulfilled)
  have "status (search request) = 200 \<or> status (search request) = 400"
    by (simp add: search_def Let_def)
  with f show ?thesis by simp
qed

theorem search_never_throws_witness:
  "search_promise \<lparr>query = []\<rparr> =
     Fulfilled
       \<lparr>status = 400,
        jsonBody = JObject [(''error'', JString (ascii ''Missing required query param: q''))]\<rparr> \<and>
   call_trim (query_get (query \<lparr>query = []\<rparr>) (ascii ''q'')) = Inl TypeError"
proof -
  have "trim (logical_or (query_get (query \<lparr>query = []\<rparr>) (ascii ''q'')) []) = []"
    by (simp add: query_get_def logical_or_def trim_Nil)
  from search_missing [OF this] search_never_throws [of "\<lparr>query = []\<rparr>"]
  show ?thesis by (simp add: query_get_def call_trim_null)
qed

text \<open>
  C8. The handler trims q. A q of white space only is answered like a missing q: with the
  client error, the same response as for the request with every q pair removed. In a
  success response the q of the body is the trimmed parameter, which neither begins nor
  ends with white space.
\<close>

theorem search_trims_q:
  "(\<forall>qs. query_get (query request) (ascii ''q'') = Some qs \<and> (\<forall>c \<in> set qs. isWhiteSpace c) \<longrightarrow>
      search request =
        \<lparr>status = 400,
         jsonBody = JObject [(''error'', JString (ascii ''Missing required query param: q''))]\<rparr> \<and>
      search request =
        search (request\<lparr>query := filter (\<lambda>p. fst p \<noteq> ascii ''q'') (query request)\<rparr>)) \<and>
   (\<forall>qs. query_get (query request) (ascii ''q'') = Some qs \<and> status (search request) = 200 \<longrightarrow>
      field (jsonBody (search request)) ''q'' = Some (JString (trim qs)) \<and>
      trim qs \<noteq> [] \<and>
      \<not> isWhiteSpace (hd (trim qs)) \<and> \<not> isWhiteSpace (last (trim qs)))"
proof (intro conjI allI impI; elim conjE)
  fix qs
  assume g: "query_get (query request) (ascii ''q'') = Some qs"
    and w: "\<forall>c \<in> set qs. isWhiteSpace c"
  have "trim (logical_or (query_get (query request) (ascii ''q'')) []) = []"
    using g trim_all_white [OF w] by (simp add: logical_or_def trim_Nil)
  from search_missing [OF this]
  show e: "search request =
        \<lparr>status = 400,
         jsonBody = JObject [(''error'', JString (ascii ''Missing required query param: q''))]\<rparr>" .
  let ?r = "request\<lparr>query := filter (\<lambda>p. fst p \<noteq> ascii ''q'') (query request)\<rparr>"
  have "trim (logical_or (query_get (query ?r) (ascii ''q'')) []) = []"
    by (simp add: query_get_without logical_or_def trim_Nil)
  from search_missing [OF this] e
  show "search request = search ?r" by simp
next
  fix qs
  assume g: "query_get (query request) (ascii ''q'') = Some qs"
    and s: "status (search request) = 200"
  have ne: "trim (logical_or (query_get (query request) (ascii ''q'')) []) \<noteq> []"
    using s status_200_iff by blast
  have l: "logical_or (query_get (query request) (ascii ''q'')) [] = qs"
    using g by (simp add: logical_or_def)
  from ne l have t: "trim qs \<noteq> []" by simp
  show "field (jsonBody (search request)) ''q'' = Some (JString (trim qs))"
    using search_found [OF ne] l by (simp add: field_def)
  show "trim qs \<noteq> []" by (rule t)
  show "\<not> isWhiteSpace (hd (trim qs))" using t by (rule trim_hd)
  show "\<not> isWhiteSpace (last (trim qs))" using t by (rule trim_last)
qed

theorem search_trims_q_witness:
  "search \<lparr>query = [(ascii ''q'', ascii ''   '')]\<rparr> =
     \<lparr>status = 400,
      jsonBody = JObject [(''error'', JString (ascii ''Missing required query param: q''))]\<rparr> \<and>
   field (jsonBody (search \<lparr>query = [(ascii ''q'', ascii '' flight logs '')]\<rparr>)) ''q''
     = Some (JString (ascii ''flight logs'')) \<and>
   ascii ''flight logs'' \<noteq> ascii '' flight logs ''"
proof -
  let ?a = "\<lparr>query = [(ascii ''q'', ascii ''   '')]\<rparr>"
  let ?b = "\<lparr>query = [(ascii ''q'', ascii '' flight logs '')]\<rparr>"
  have ga: "query_get (query ?a) (ascii ''q'') = Some (ascii ''   '')"
    by (simp add: query_get_def)
  have wa: "\<forall>c \<in> set (ascii ''   ''). isWhiteSpace c"
    by (simp add: ascii_def isWhiteSpace_def)
  have gb: "query_get (query ?b) (ascii ''q'') = Some (ascii '' flight logs '')"
    by (simp add: query_get_def)
  have tb: "trim (ascii '' flight logs '') = ascii ''flight logs''"
    by (simp add: ascii_def trim_def isWhiteSpace_def)
  have "trim (logical_or (query_get (query ?b) (ascii ''q'')) []) \<noteq> []"
    by (simp add: request_eval)
  then have sb: "status (search ?b) = 200" using status_200_iff by blast
  have a: "search ?a =
     \<lparr>status = 400,
      jsonBody = JObject [(''error'', JString (ascii ''Missing required query param: q''))]\<rparr>"
    using search_trims_q [of ?a] ga wa by blast
  have b: "field (jsonBody (search ?b)) ''q'' = Some (JString (ascii ''flight logs''))"
    using search_trims_q [of ?b] gb sb tb by metis
  have c: "ascii ''flight logs'' \<noteq> ascii '' flight logs ''" by (simp add: ascii_def)
  from a b c show ?thesis by blast
qed

text \<open>
  C9. When k is absent, or is present and does not parse to a finite number, the handler
  uses 8. The k of every response that has one is an integer of [1, 25].
\<close>

theorem search_default_k:
  "((query_get (query request) (ascii ''k'') = None \<or>
     (\<exists>ks. query_get (query request) (ascii ''k'') = Some ks \<and> \<not> Number_isFinite (Number ks))) \<longrightarrow>
      clampK (Number (logical_or (query_get (query request) (ascii ''k'')) (ascii ''8''))) = Num 8 \<and>
      (status (search request) = 200 \<longrightarrow>
         field (jsonBody (search request)) ''k'' = Some (JNumber (Num 8)))) \<and>
   (\<forall>j. field (jsonBody (search request)) ''k'' = Some j \<longrightarrow>
      (\<exists>n. j = JNumber (Num (of_int n)) \<and> 1 \<le> n \<and> n \<le> 25))"
proof (intro conjI allI impI)
  assume h: "query_get (query request) (ascii ''k'') = None \<or>
     (\<exists>ks. query_get (query request) (ascii ''k'') = Some ks \<and> \<not> Number_isFinite (Number ks))"
  show k8: "clampK (Number (logical_or (query_get (query request) (ascii ''k'')) (ascii ''8'')))
        = Num 8"
    using h
  proof
    assume "query_get (query request) (ascii ''k'') = None"
    then show ?thesis by (simp add: logical_or_def Number_8 clampK_Num)
  next
    assume "\<exists>ks. query_get (query request) (ascii ''k'') = Some ks \<and> \<not> Number_isFinite (Number ks)"
    then obtain ks where g: "query_get (query request) (ascii ''k'') = Some ks"
      and nf: "\<not> Number_isFinite (Number ks)" by blast
    have "ks \<noteq> []"
    proof
      assume "ks = []"
      then have "Number ks = Num 0" by (simp add: Number_def trim_Nil)
      with nf show False by (simp add: Number_isFinite_def)
    qed
    then have "logical_or (query_get (query request) (ascii ''k'')) (ascii ''8'') = ks"
      using g by (simp add: logical_or_def)
    then show ?thesis using nf by (simp add: clampK_not_finite)
  qed
  assume "status (search request) = 200"
  then have "trim (logical_or (query_get (query request) (ascii ''q'')) []) \<noteq> []"
    using status_200_iff by blast
  from search_found [OF this] k8
  show "field (jsonBody (search request)) ''k'' = Some (JNumber (Num 8))"
    by (simp add: field_def)
next
  fix j
  assume j: "field (jsonBody (search request)) ''k'' = Some j"
  have ne: "trim (logical_or (query_get (query request) (ascii ''q'')) []) \<noteq> []"
  proof
    assume "trim (logical_or (query_get (query request) (ascii ''q'')) []) = []"
    from search_missing [OF this] j show False by (simp add: field_def)
  qed
  obtain n where n:
    "clampK (Number (logical_or (query_get (query request) (ascii ''k'')) (ascii ''8'')))
       = Num (of_int n)" "1 \<le> n" "n \<le> 25"
    using clampK_int_range by blast
  have "j = JNumber (Num (of_int n))"
    using search_found [OF ne] j n(1) by (simp add: field_def)
  with n(2,3) show "\<exists>n. j = JNumber (Num (of_int n)) \<and> 1 \<le> n \<and> n \<le> 25" by blast
qed

theorem search_default_k_witness:
  "field (jsonBody (search \<lparr>query = [(ascii ''q'', ascii ''logs'')]\<rparr>)) ''k''
     = Some (JNumber (Num 8)) \<and>
   field (jsonBody (search \<lparr>query = [(ascii ''q'', ascii ''logs''), (ascii ''k'', ascii ''abc'')]\<rparr>)) ''k''
     = Some (JNumber (Num 8))"
proof -
  let ?a = "\<lparr>query = [(ascii ''q'', ascii ''logs'')]\<rparr>"
  let ?b = "\<lparr>query = [(ascii ''q'', ascii ''logs''), (ascii ''k'', ascii ''abc'')]\<rparr>"
  have "trim (logical_or (query_get (query ?a) (ascii ''q'')) []) \<noteq> []"
    by (simp add: request_eval)
  then have sa: "status (search ?a) = 200" using status_200_iff by blast
  have "trim (logical_or (query_get (query ?b) (ascii ''q'')) []) \<noteq> []"
    by (simp add: request_eval)
  then have sb: "status (search ?b) = 200" using status_200_iff by blast
  have ga: "query_get (query ?a) (ascii ''k'') = None"
    by (simp add: query_get_def ascii_def)
  have gb: "query_get (query ?b) (ascii ''k'') = Some (ascii ''abc'')"
    by (simp add: query_get_def ascii_def)
  have nf: "\<not> Number_isFinite (Number (ascii ''abc''))"
    by (simp add: Number_abc Number_isFinite_def)
  have a: "field (jsonBody (search ?a)) ''k'' = Some (JNumber (Num 8))"
    using search_default_k [of ?a] ga sa by blast
  have b: "field (jsonBody (search ?b)) ''k'' = Some (JNumber (Num 8))"
    using search_default_k [of ?b] gb nf sb by blast
  from a b show ?thesis by (rule conjI)
qed

text \<open>
  C10. The \<open>clampK\<close> of the API and the \<open>clampK\<close> of the frontend return the same value on
  every number, the one the specification describes: 8 for a non-finite input and
  \<open>max(1, min(25, floor(input)))\<close> for a finite one.
\<close>

theorem clampK_server_frontend_agree:
  "clampK_frontend k = clampK k \<and> clampK k = clampK_spec k"
  by (cases k)
     (simp_all add: clampK_frontend_def clampK_def clampK_spec_def Number_isFinite_def
        Math_floor_def)

text \<open>
  C7. Against the pipeline as the specification describes it: a run after a run, on an
  unchanged input set, changes nothing, whatever the times of the runs and whatever the
  state before the first. So any number of runs from the empty stores ends in the state of
  the first, with the same status counts and the same chunk ids, and no chunk id occurs
  twice in the index.
\<close>

theorem pipeline_idempotent:
  "run w t' (run w t st) = run w t st \<and>
   runs w (t # ts) empty_store = run w t empty_store \<and>
   status_counts (run w t' (run w t empty_store)) = status_counts (run w t empty_store) \<and>
   chunk_ids (run w t' (run w t empty_store)) = chunk_ids (run w t empty_store) \<and>
   distinct (chunk_ids (runs w (t # ts) empty_store))"
proof -
  have "ix_ok (index empty_store)" by (simp add: ix_ok_def empty_store_def)
  then have "ix_ok (index (run w t empty_store))" by (rule run_ix_ok)
  then have "distinct (chunk_ids (run w t empty_store))"
    by (simp add: ix_ok_def chunk_ids_def)
  then show ?thesis by (simp add: run_run runs_Cons)
qed

theorem pipeline_idempotent_witness:
  "status_counts
     (runs \<lparr>pages = [''p''],
            page_links = (\<lambda>p. if p = ''p'' then Some [''a.pdf'', ''B.PDF'', ''c.html''] else None),
            fetch = (\<lambda>u. if u = ''a.pdf'' then Inr ''%PDF'' else Inl ''404''),
            hash_of = length,
            native_extract = (\<lambda>b. Some (''flight logs'', 2)),
            ocr_extract = (\<lambda>b. None),
            ocr_enabled = False,
            yield_threshold = 5,
            chunker = (\<lambda>t. [(take 8 t, 0, 8), (drop 6 t, 6, length t)]),
            embed = (\<lambda>t. [of_nat (length t)])\<rparr>
        [5, 6, 7] empty_store) = (0, 1, 1) \<and>
   chunk_ids
     (runs \<lparr>pages = [''p''],
            page_links = (\<lambda>p. if p = ''p'' then Some [''a.pdf'', ''B.PDF'', ''c.html''] else None),
            fetch = (\<lambda>u. if u = ''a.pdf'' then Inr ''%PDF'' else Inl ''404''),
            hash_of = length,
            native_extract = (\<lambda>b. Some (''flight logs'', 2)),
            ocr_extract = (\<lambda>b. None),
            ocr_enabled = False,
            yield_threshold = 5,
            chunker = (\<lambda>t. [(take 8 t, 0, 8), (drop 6 t, 6, length t)]),
            embed = (\<lambda>t. [of_nat (length t)])\<rparr>
        [5, 6, 7] empty_store) = [(''a.pdf'', 0), (''a.pdf'', 1)]"
proof -
  let ?w = "\<lparr>pages = [''p''],
            page_links = (\<lambda>p. if p = ''p'' then Some [''a.pdf'', ''B.PDF'', ''c.html''] else None),
            fetch = (\<lambda>u. if u = ''a.pdf'' then Inr ''%PDF'' else Inl ''404''),
            hash_of = length,
            native_extract = (\<lambda>b. Some (''flight logs'', 2)),
            ocr_extract = (\<lambda>b. None),
            ocr_enabled = False,
            yield_threshold = 5,
            chunker = (\<lambda>t. [(take 8 t, 0, 8), (drop 6 t, 6, length t)]),
            embed = (\<lambda>t. [rat_of_nat (length t)])\<rparr>"
  have d: "discover ?w = [''a.pdf'', ''B.PDF'']"
    by (simp add: discover_def is_pdf_def lower_def)
  have r: "runs ?w [5, 6, 7] empty_store = run ?w 5 empty_store"
    using pipeline_idempotent [of ?w _ 5 _ "[6, 7]"] by blast
  have m: "status_counts (run ?w 5 empty_store) = (0, 1, 1)"
    by (simp add: run_def Let_def d download_one_def empty_store_def pending_record_def
        index_fold_frame extract_fold_frame extract_one_frame index_one_frame case_prod_beta
        status_counts_def)
  have i: "chunk_ids (run ?w 5 empty_store) = [(''a.pdf'', 0), (''a.pdf'', 1)]"
    by (simp add: run_def Let_def d download_one_def empty_store_def pending_record_def
        extract_one_def extract_text_def index_one_def entries_of_def chunk_ids_def upt_rec)
  show ?thesis by (simp only: r i m)
qed

end
